theory Spec2Isabelle
  imports
    Complex_Main
    "HOL-Library.AList"
    "HOL-Library.Multiset"
    "HOL-Library.Sublist"
    "HOL-Library.Char_ord"
    "HOL-Library.List_Lexorder"
    "HOL-Library.Log_Nat"
begin

section \<open>Python values\<close>

text \<open>
  A Python \<open>str\<close> is a \<^typ>\<open>string\<close>: a list of characters, each read as one code point
  in the range 0..255 (so \<open>length\<close> counts code points, as Python's \<open>len\<close> does).
  Strings are compared with \<open>=\<close> and ordered lexicographically by code point, which is
  the order of \<open>HOL-Library.List_Lexorder\<close> over \<open>HOL-Library.Char_ord\<close>.
  The user-visible Russian literals of the source lie outside that range; each one is a
  constructor of a datatype, named after what the literal says.

  A \<open>dict\<close> with string keys and string values (a user record of \<open>users.json\<close>, the
  registration form) is an association list in insertion order. Subscription raises
  \<open>KeyError\<close> on a missing key, \<open>get\<close> does not.
\<close>

datatype error =
    KeyError string
  | ValueError
  | AttributeError string

type_synonym pydict = "(string \<times> string) list"

definition getitem :: "pydict \<Rightarrow> string \<Rightarrow> error + string" where
  "getitem d k = (case map_of d k of None \<Rightarrow> Inl (KeyError k) | Some v \<Rightarrow> Inr v)"

definition get_default :: "pydict \<Rightarrow> string \<Rightarrow> string \<Rightarrow> string" where
  "get_default d k dflt = (case map_of d k of None \<Rightarrow> dflt | Some v \<Rightarrow> v)"

definition setitem :: "pydict \<Rightarrow> string \<Rightarrow> string \<Rightarrow> pydict" where
  "setitem d k v = AList.update k v d"

definition pop :: "pydict \<Rightarrow> string \<Rightarrow> error + string \<times> pydict" where
  "pop d k = (case map_of d k of None \<Rightarrow> Inl (KeyError k) | Some v \<Rightarrow> Inr (v, AList.delete k d))"

text \<open>
  \<open>re.match(r'^[A-Za-z0-9]+$', s)\<close>: the class matches one character in the three ASCII
  ranges; \<open>+\<close> takes a non-empty run of them from the start of the string; \<open>$\<close> (without
  the MULTILINE flag) matches at the end of the string and also just before a newline
  that is the last character of the string.
\<close>

definition alnum :: "char \<Rightarrow> bool" where
  "alnum c = (let n = (of_char c :: nat)
              in (65 \<le> n \<and> n \<le> 90) \<or> (97 \<le> n \<and> n \<le> 122) \<or> (48 \<le> n \<and> n \<le> 57))"

definition re_match_alnum :: "string \<Rightarrow> bool" where
  "re_match_alnum s =
     (let run = takeWhile alnum s; rest = dropWhile alnum s
      in run \<noteq> [] \<and> (rest = [] \<or> rest = [CHR 0x0A]))"

text \<open>
  \<open>str.lower()\<close> on code points up to 255: the letters A..Z and the capital letters of
  the Latin-1 block (192..222 except the multiplication sign 215) move up by 32, every
  other character is kept. \<open>sub in s\<close> on strings is the contiguous-substring test,
  \<^const>\<open>sublist\<close>.
\<close>

definition lower_char :: "char \<Rightarrow> char" where
  "lower_char c = (let n = (of_char c :: nat)
                   in if (65 \<le> n \<and> n \<le> 90) \<or> (192 \<le> n \<and> n \<le> 222 \<and> n \<noteq> 215)
                      then char_of (n + 32) else c)"

definition lower :: "string \<Rightarrow> string" where
  "lower s = map lower_char s"

text \<open>
  \<open>str.isspace()\<close> on one code point up to 255, the characters that \<open>str.strip()\<close>
  removes: tab to carriage return, the four separators 28..31, the space, NEL and the
  no-break space.
\<close>

definition isspace :: "char \<Rightarrow> bool" where
  "isspace c = (let n = (of_char c :: nat)
                in (9 \<le> n \<and> n \<le> 13) \<or> (28 \<le> n \<and> n \<le> 31) \<or> n = 32 \<or> n = 133 \<or> n = 160)"

text \<open>
  \<open>sorted(items, key=k, reverse=r)\<close>: a stable sort by key. With \<open>reverse=True\<close> CPython
  reverses the list, sorts it stably in ascending order and reverses the result, so
  that elements with equal keys keep their original order in both directions.
\<close>

definition py_sorted :: "('a \<Rightarrow> 'k::linorder) \<Rightarrow> bool \<Rightarrow> 'a list \<Rightarrow> 'a list" where
  "py_sorted key reverse items =
     (if reverse then rev (sort_key key (rev items)) else sort_key key items)"

section \<open>Records of the three stored collections\<close>

text \<open>
  Restaurants, menu items, cart lines and orders are dicts with a fixed set of keys, read
  by subscription; they are records here. The one optional key, a restaurant's
  \<open>'rating'\<close>, is an option. Ratings are only compared, and the comparison of two
  finite floats is the comparison of the numbers they denote, so a rating is a
  \<^typ>\<open>real\<close>. Prices are added and rendered, so the records
  leave their type \<open>'n\<close> open; Python's numbers are the type \<open>pynum\<close> below.
\<close>

record 'n menu_item =
  i_id :: int
  i_name :: string
  i_description :: string
  i_price :: 'n

record 'n restaurant =
  r_id :: int
  r_name :: string
  r_description :: string
  r_rating :: "real option"
  r_menu :: "'n menu_item list"

record 'n cart_item =
  c_id :: int
  c_name :: string
  c_price :: 'n
  c_restaurant :: string

datatype order_status = In_processing

record 'n order =
  o_user :: string
  o_date :: string
  o_items :: "'n cart_item list"
  o_address :: string
  o_payment_method :: string
  o_status :: order_status

section \<open>Database\<close>

text \<open>
  The state of \<open>Database\<close> is the content of its three JSON files. \<open>written\<close> is a trace
  of the files opened for writing, in order; it is not read by the program.
\<close>

record 'n database =
  users_file :: "pydict list"
  restaurants_file :: "'n restaurant list"
  orders_file :: "'n order list"
  written :: "string list"

definition load_users :: "'n database \<Rightarrow> pydict list" where
  "load_users db = users_file db"

definition save_users :: "pydict list \<Rightarrow> 'n database \<Rightarrow> 'n database" where
  "save_users users db = db\<lparr>users_file := users, written := written db @ [''users.json'']\<rparr>"

definition load_restaurants :: "'n database \<Rightarrow> 'n restaurant list" where
  "load_restaurants db = restaurants_file db"

definition load_orders :: "'n database \<Rightarrow> 'n order list" where
  "load_orders db = orders_file db"

definition save_orders :: "'n order list \<Rightarrow> 'n database \<Rightarrow> 'n database" where
  "save_orders orders db = db\<lparr>orders_file := orders, written := written db @ [''orders.json'']\<rparr>"

section \<open>Users\<close>

record user_obj =
  first_name :: string
  last_name :: string
  birth_date :: string
  email :: string
  login :: string
  password :: string
  address :: string
  role :: string

datatype account = RegularUser user_obj | AdminUser user_obj

fun user_of :: "account \<Rightarrow> user_obj" where
  "user_of (RegularUser u) = u"
| "user_of (AdminUser u) = u"

text \<open>\<open>AbstractUser.__init__\<close>: seven subscriptions in order, then \<open>data.get('role', 'user')\<close>.\<close>

definition init_user :: "pydict \<Rightarrow> error + user_obj" where
  "init_user data =
     (case getitem data ''first_name'' of Inl e \<Rightarrow> Inl e | Inr v1 \<Rightarrow>
     (case getitem data ''last_name'' of Inl e \<Rightarrow> Inl e | Inr v2 \<Rightarrow>
     (case getitem data ''birth_date'' of Inl e \<Rightarrow> Inl e | Inr v3 \<Rightarrow>
     (case getitem data ''email'' of Inl e \<Rightarrow> Inl e | Inr v4 \<Rightarrow>
     (case getitem data ''login'' of Inl e \<Rightarrow> Inl e | Inr v5 \<Rightarrow>
     (case getitem data ''password'' of Inl e \<Rightarrow> Inl e | Inr v6 \<Rightarrow>
     (case getitem data ''address'' of Inl e \<Rightarrow> Inl e | Inr v7 \<Rightarrow>
        Inr \<lparr>first_name = v1, last_name = v2, birth_date = v3, email = v4, login = v5,
             password = v6, address = v7, role = get_default data ''role'' ''user''\<rparr>)))))))"

definition regular_create_user :: "pydict \<Rightarrow> error + account" where
  "regular_create_user user_data = map_sum (\<lambda>e. e) RegularUser (init_user user_data)"

definition admin_create_user :: "pydict \<Rightarrow> error + account" where
  "admin_create_user user_data = map_sum (\<lambda>e. e) AdminUser (init_user user_data)"

subsection \<open>UserSystemFacade\<close>

datatype message =
    Login_exists
  | Passwords_differ
  | Password_not_latin_alnum
  | Registration_ok

text \<open>
  \<open>any(u['login'] == user_data['login'] for u in users)\<close>: both subscriptions are
  evaluated for each stored user in turn, and the scan stops at the first equal pair.
\<close>

fun any_login :: "pydict list \<Rightarrow> pydict \<Rightarrow> error + bool" where
  "any_login [] user_data = Inr False"
| "any_login (u # users) user_data =
     (case getitem u ''login'' of Inl e \<Rightarrow> Inl e | Inr l \<Rightarrow>
     (case getitem user_data ''login'' of Inl e \<Rightarrow> Inl e | Inr l' \<Rightarrow>
        if l = l' then Inr True else any_login users user_data))"

definition register_user :: "pydict \<Rightarrow> 'n database \<Rightarrow> (error + bool \<times> message) \<times> 'n database" where
  "register_user user_data db =
     (let users = load_users db in
      case any_login users user_data of
        Inl e \<Rightarrow> (Inl e, db)
      | Inr dup \<Rightarrow>
          if dup then (Inr (False, Login_exists), db)
          else
           (case getitem user_data ''password'' of Inl e \<Rightarrow> (Inl e, db) | Inr pw \<Rightarrow>
           (case getitem user_data ''repeat_password'' of Inl e \<Rightarrow> (Inl e, db) | Inr rp \<Rightarrow>
              if pw \<noteq> rp then (Inr (False, Passwords_differ), db)
              else if \<not> re_match_alnum pw then (Inr (False, Password_not_latin_alnum), db)
              else
               (case pop user_data ''repeat_password'' of Inl e \<Rightarrow> (Inl e, db) | Inr (_, user_data1) \<Rightarrow>
                  let user_data2 = setitem user_data1 ''role'' ''user'';
                      users2 = users @ [user_data2]
                  in (Inr (True, Registration_ok), save_users users2 db)))))"

text \<open>
  \<open>next((u for u in users if u['login'] == login and u['password'] == password), None)\<close>:
  \<open>and\<close> evaluates the password subscription only when the logins are equal.
\<close>

fun next_user :: "pydict list \<Rightarrow> string \<Rightarrow> string \<Rightarrow> error + pydict option" where
  "next_user [] lg pw = Inr None"
| "next_user (u # users) lg pw =
     (case getitem u ''login'' of Inl e \<Rightarrow> Inl e | Inr l \<Rightarrow>
        if l = lg then
          (case getitem u ''password'' of Inl e \<Rightarrow> Inl e | Inr p \<Rightarrow>
             if p = pw then Inr (Some u) else next_user users lg pw)
        else next_user users lg pw)"

text \<open>\<open>not user_data\<close> holds for \<open>None\<close> and for an empty dict.\<close>

definition login_user :: "string \<Rightarrow> string \<Rightarrow> 'n database \<Rightarrow> (error + account option) \<times> 'n database" where
  "login_user lg pw db =
     (let users = load_users db in
      case next_user users lg pw of
        Inl e \<Rightarrow> (Inl e, db)
      | Inr None \<Rightarrow> (Inr None, db)
      | Inr (Some user_data) \<Rightarrow>
          if user_data = [] then (Inr None, db)
          else if map_of user_data ''role'' = Some ''admin''
               then (map_sum (\<lambda>e. e) Some (admin_create_user user_data), db)
               else (map_sum (\<lambda>e. e) Some (regular_create_user user_data), db))"

section \<open>Subject and SearchSubject\<close>

text \<open>
  An observer is identified by a value of type \<open>'o\<close>. What \<open>observer.update(message)\<close>
  does is outside the subject; the model records that the call is made: \<open>calls\<close> is the
  trace of the \<open>update\<close> calls, each with its receiver and its argument, in the order
  in which they are made. No observer of the program attaches or detaches from inside
  its \<open>update\<close>, so the list being iterated is not changed during \<open>notify\<close>.
\<close>

record ('o, 'm) search_subject =
  observers :: "'o list"
  results :: 'm
  calls :: "('o \<times> 'm) list"

definition attach :: "'o \<Rightarrow> ('o, 'm) search_subject \<Rightarrow> ('o, 'm) search_subject" where
  "attach observer s = s\<lparr>observers := observers s @ [observer]\<rparr>"

text \<open>\<open>list.remove(x)\<close> deletes the first element equal to \<open>x\<close> and raises \<open>ValueError\<close> when there is none.\<close>

definition detach :: "'o \<Rightarrow> ('o, 'm) search_subject \<Rightarrow> error + ('o, 'm) search_subject" where
  "detach observer s =
     (if observer \<in> set (observers s) then Inr (s\<lparr>observers := remove1 observer (observers s)\<rparr>)
      else Inl ValueError)"

fun notify_loop :: "'o list \<Rightarrow> 'm \<Rightarrow> ('o \<times> 'm) list \<Rightarrow> ('o \<times> 'm) list" where
  "notify_loop [] message cs = cs"
| "notify_loop (observer # rest) message cs = notify_loop rest message (cs @ [(observer, message)])"

definition notify :: "'m \<Rightarrow> ('o, 'm) search_subject \<Rightarrow> ('o, 'm) search_subject" where
  "notify message s = s\<lparr>calls := notify_loop (observers s) message (calls s)\<rparr>"

definition update_results :: "'m \<Rightarrow> ('o, 'm) search_subject \<Rightarrow> ('o, 'm) search_subject" where
  "update_results rs s = notify rs (s\<lparr>results := rs\<rparr>)"

text \<open>A sequence of \<open>attach\<close> and \<open>detach\<close> calls, stopped by the first exception.\<close>

datatype 'o subject_call = Attach 'o | Detach 'o

fun run_calls :: "'o subject_call list \<Rightarrow> ('o, 'm) search_subject \<Rightarrow> error + ('o, 'm) search_subject" where
  "run_calls [] s = Inr s"
| "run_calls (Attach observer # cs) s = run_calls cs (attach observer s)"
| "run_calls (Detach observer # cs) s =
     (case detach observer s of Inl e \<Rightarrow> Inl e | Inr s' \<Rightarrow> run_calls cs s')"

fun attached :: "'o subject_call list \<Rightarrow> 'o list" where
  "attached [] = []"
| "attached (Attach observer # cs) = observer # attached cs"
| "attached (Detach observer # cs) = attached cs"

fun detached :: "'o subject_call list \<Rightarrow> 'o list" where
  "detached [] = []"
| "detached (Attach observer # cs) = detached cs"
| "detached (Detach observer # cs) = observer # detached cs"

section \<open>Sort strategies\<close>

datatype sort_strategy = SortByName | SortByRating

definition SortByName_sort :: "'n restaurant list \<Rightarrow> 'n restaurant list" where
  "SortByName_sort items = py_sorted r_name False items"

definition rating_key :: "'n restaurant \<Rightarrow> real" where
  "rating_key x = (case r_rating x of None \<Rightarrow> 4.0 | Some r \<Rightarrow> r)"

definition SortByRating_sort :: "'n restaurant list \<Rightarrow> 'n restaurant list" where
  "SortByRating_sort items = py_sorted rating_key True items"

fun execute_sort :: "sort_strategy \<Rightarrow> 'n restaurant list \<Rightarrow> 'n restaurant list" where
  "execute_sort SortByName items = SortByName_sort items"
| "execute_sort SortByRating items = SortByRating_sort items"

text \<open>
  \<open>FoodDeliveryApp.load_restaurants\<close>: the restaurants shown in the list widget, in order,
  and the database after the call. \<open>sort_index\<close> is the index of the sort combo box.
\<close>

definition list_restaurants :: "nat \<Rightarrow> 'n database \<Rightarrow> 'n restaurant list \<times> 'n database" where
  "list_restaurants sort_index db =
     (let restaurants = load_restaurants db;
          strategy = (if sort_index = 0 then SortByName else SortByRating);
          sorted_restaurants = execute_sort strategy restaurants
      in (sorted_restaurants, db))"

section \<open>Search\<close>

text \<open>
  A search result is a dict tagged by its \<open>'type'\<close> key: \<open>Restaurant_result\<close> has id, name,
  description and rating, \<open>Dish_result\<close> has restaurant id, restaurant name, name,
  description and price.
\<close>

datatype 'n search_result =
    Restaurant_result int string string real
  | Dish_result int string string string 'n

definition restaurant_result :: "'n restaurant \<Rightarrow> 'n search_result" where
  "restaurant_result restaurant =
     Restaurant_result (r_id restaurant) (r_name restaurant) (r_description restaurant)
       (case r_rating restaurant of None \<Rightarrow> 4.5 | Some r \<Rightarrow> r)"

definition dish_result :: "'n restaurant \<Rightarrow> 'n menu_item \<Rightarrow> 'n search_result" where
  "dish_result restaurant item =
     Dish_result (r_id restaurant) (r_name restaurant) (i_name item) (i_description item) (i_price item)"

fun menu_loop :: "string \<Rightarrow> 'n restaurant \<Rightarrow> 'n menu_item list \<Rightarrow> 'n search_result list \<Rightarrow> 'n search_result list" where
  "menu_loop query restaurant [] rs = rs"
| "menu_loop query restaurant (item # rest) rs =
     menu_loop query restaurant rest
       (if sublist query (lower (i_name item)) then rs @ [dish_result restaurant item] else rs)"

fun restaurant_loop :: "string \<Rightarrow> 'n restaurant list \<Rightarrow> 'n search_result list \<Rightarrow> 'n search_result list" where
  "restaurant_loop query [] rs = rs"
| "restaurant_loop query (restaurant # rest) rs =
     (let rs1 = (if sublist query (lower (r_name restaurant))
                 then rs @ [restaurant_result restaurant] else rs);
          rs2 = menu_loop query restaurant (r_menu restaurant) rs1
      in restaurant_loop query rest rs2)"

text \<open>
  \<open>handle_search\<close> either returns early, after hiding and clearing the list of results
  (\<open>Clear_results\<close>, nothing is passed to the search subject), or passes the results it
  has collected to \<open>search_subject.update_results\<close> (\<open>Update_results\<close>).
\<close>

datatype 'n search_action = Clear_results | Update_results "'n search_result list"

definition handle_search :: "string \<Rightarrow> 'n database \<Rightarrow> 'n search_action" where
  "handle_search text db =
     (let query = lower text in
      if query = [] then Clear_results
      else let restaurants = load_restaurants db
           in Update_results (restaurant_loop query restaurants []))"

text \<open>
  The results on display after \<open>handle_search\<close>: none after \<open>search_results_list.clear()\<close>,
  the published ones, one line each, after \<open>update\<close>.
\<close>

fun shown :: "'n search_action \<Rightarrow> 'n search_result list" where
  "shown Clear_results = []"
| "shown (Update_results rs) = rs"

section \<open>Python numbers\<close>

text \<open>
  A price read from \<open>restaurants.json\<close> is an \<open>int\<close> (a literal without fraction or
  exponent) or a \<open>float\<close>. A float is given by the rational number it denotes; only
  finite doubles are modelled, with an exponent range that has no end (no overflow, no
  subnormal numbers, no signed zero, no NaN). \<open>round53\<close> is rounding to the nearest
  number with a significand of 53 bits, ties to the even significand: what a float
  addition does with the exact sum, what \<open>float(n)\<close> does with an int, and what
  \<open>json.load\<close> does with a decimal literal.
\<close>

datatype pynum = PyInt int | PyFloat rat

definition num_val :: "pynum \<Rightarrow> rat" where
  "num_val x = (case x of PyInt n \<Rightarrow> of_int n | PyFloat v \<Rightarrow> v)"

definition round_half_even :: "rat \<Rightarrow> int" where
  "round_half_even x =
     (let f = \<lfloor>x\<rfloor>; d = x - of_int f
      in if d < 1 / 2 then f else if 1 / 2 < d then f + 1 else if even f then f else f + 1)"

definition pow2 :: "int \<Rightarrow> rat" where
  "pow2 k = (if 0 \<le> k then 2 ^ nat k else 1 / 2 ^ nat (- k))"

text \<open>The exponent \<open>e\<close> of a number other than 0: \<open>2 ^ e \<le> \<bar>x\<bar> < 2 ^ (e + 1)\<close>.\<close>

definition exponent :: "rat \<Rightarrow> int" where
  "exponent x =
     (let (p, q) = quotient_of \<bar>x\<bar>; k = bitlen p - bitlen q
      in if pow2 k \<le> \<bar>x\<bar> then k else k - 1)"

definition round53 :: "rat \<Rightarrow> rat" where
  "round53 x =
     (if x = 0 then 0
      else let u = pow2 (exponent x - 52) in of_int (round_half_even (x / u)) * u)"

definition to_float :: "pynum \<Rightarrow> rat" where
  "to_float x = (case x of PyInt n \<Rightarrow> round53 (of_int n) | PyFloat v \<Rightarrow> v)"

text \<open>
  \<open>a + b\<close>: exact on two ints; otherwise both operands become floats and the exact sum
  is rounded.
\<close>

instantiation pynum :: "{zero, plus}"
begin

definition zero_pynum :: pynum where
  "zero_pynum = PyInt 0"

definition plus_pynum :: "pynum \<Rightarrow> pynum \<Rightarrow> pynum" where
  "plus_pynum a b =
     (case (a, b) of
        (PyInt m, PyInt n) \<Rightarrow> PyInt (m + n)
      | _ \<Rightarrow> PyFloat (round53 (to_float a + to_float b)))"

instance ..

end

text \<open>
  The format \<open>.2f\<close>: an int is converted to a float first; the float's exact value is
  rounded to a whole number of hundredths, ties to even, and written with a sign for a
  negative value, the decimal digits of the whole part, a point and two digits.
\<close>

function digits :: "int \<Rightarrow> string" where
  "digits n = (if n < 10 then [char_of (48 + n)] else digits (n div 10) @ [char_of (48 + n mod 10)])"
  by pat_completeness auto
termination
  by (relation "measure nat") auto

definition two_decimals :: "rat \<Rightarrow> string" where
  "two_decimals v =
     (let c = round_half_even (\<bar>v\<bar> * 100)
      in (if v < 0 then ''-'' else []) @ digits (c div 100) @ ''.'' @
         [char_of (48 + c mod 100 div 10), char_of (48 + c mod 10)])"

definition py_format_2f :: "pynum \<Rightarrow> string" where
  "py_format_2f x = two_decimals (to_float x)"

section \<open>Cart and orders\<close>

text \<open>
  The part of \<open>FoodDeliveryApp\<close> that the cart and the order workflow read or write: the
  database, the logged-in user, the cart, the page on display (the current widget of
  the stacked widget), the widgets whose text is computed from the cart, and the trace of
  the message boxes shown. Numbers are rendered with the format \<open>.2f\<close>, two digits after
  the point; the rendering function is the parameter \<open>format_2f\<close>, which is
  \<open>py_format_2f\<close> where the prices are Python's numbers. The time stamp
  \<open>datetime.now().strftime(...)\<close> and the text of the payment combo box are parameters
  of \<open>confirm_order\<close>.
\<close>

datatype page =
    Login_page | Register_page | Main_page | Restaurant_page
  | Cart_page | Order_confirmation_page | Admin_page

datatype message_box =
    Login_failed
  | Added_to_cart string
  | Cart_is_empty
  | Order_confirmed string

record 'n app =
  db :: "'n database"
  current_user :: "account option"
  cart :: "'n cart_item list"
  current_widget :: page
  cart_list :: "(string \<times> string \<times> string) list"
  total_label :: string
  order_summary :: "(string \<times> string) list \<times> string"
  delivery_address :: string
  message_boxes :: "message_box list"

text \<open>\<open>total = 0\<close>, then \<open>total += item['price']\<close> for each item of the cart in order.\<close>

fun total_loop :: "'n cart_item list \<Rightarrow> 'n::plus \<Rightarrow> 'n" where
  "total_loop [] tot = tot"
| "total_loop (item # rest) tot = total_loop rest (tot + c_price item)"

definition update_cart :: "('n::{zero,plus} \<Rightarrow> string) \<Rightarrow> 'n app \<Rightarrow> 'n app" where
  "update_cart format_2f s =
     s\<lparr>cart_list := map (\<lambda>item. (c_name item, format_2f (c_price item), c_restaurant item)) (cart s),
       total_label := format_2f (total_loop (cart s) 0)\<rparr>"

definition add_to_cart :: "('n::{zero,plus} \<Rightarrow> string) \<Rightarrow> 'n cart_item \<Rightarrow> 'n app \<Rightarrow> 'n app" where
  "add_to_cart format_2f data s =
     (let s1 = s\<lparr>cart := cart s @ [data]\<rparr>;
          s2 = s1\<lparr>message_boxes := message_boxes s1 @ [Added_to_cart (c_name data)]\<rparr>
      in update_cart format_2f s2)"

text \<open>
  \<open>show_main\<close> changes the page only when a user is logged in. It also fills the welcome
  label and the restaurant list and clears the search widgets, which nothing here reads.
\<close>

definition show_main :: "'n app \<Rightarrow> 'n app" where
  "show_main s = (case current_user s of None \<Rightarrow> s | Some _ \<Rightarrow> s\<lparr>current_widget := Main_page\<rparr>)"

definition show_cart :: "('n::{zero,plus} \<Rightarrow> string) \<Rightarrow> 'n app \<Rightarrow> 'n app" where
  "show_cart format_2f s = (update_cart format_2f s)\<lparr>current_widget := Cart_page\<rparr>"

definition logout :: "'n app \<Rightarrow> 'n app" where
  "logout s = s\<lparr>current_user := None, cart := [], current_widget := Login_page\<rparr>"

text \<open>
  \<open>show_order_confirmation\<close>: with an empty cart, a warning and nothing else. Otherwise
  the summary is set first; reading \<open>self.current_user.address\<close> raises
  \<open>AttributeError\<close> when nobody is logged in.
\<close>

definition show_order_confirmation :: "('n::{zero,plus} \<Rightarrow> string) \<Rightarrow> 'n app \<Rightarrow> (error + unit) \<times> 'n app" where
  "show_order_confirmation format_2f s =
     (if cart s = [] then (Inr (), s\<lparr>message_boxes := message_boxes s @ [Cart_is_empty]\<rparr>)
      else
        let summary = map (\<lambda>item. (c_name item, format_2f (c_price item))) (cart s);
            tot = total_loop (cart s) 0;
            s1 = s\<lparr>order_summary := (summary, format_2f tot)\<rparr>
        in case current_user s1 of
             None \<Rightarrow> (Inl (AttributeError ''address''), s1)
           | Some user \<Rightarrow>
               (Inr (), s1\<lparr>delivery_address := address (user_of user),
                           current_widget := Order_confirmation_page\<rparr>))"

text \<open>\<open>confirm_order\<close> has no check of its own: it stores whatever the cart holds.\<close>

definition confirm_order :: "string \<Rightarrow> string \<Rightarrow> 'n app \<Rightarrow> (error + unit) \<times> 'n app" where
  "confirm_order payment_method now s =
     (case current_user s of
        None \<Rightarrow> (Inl (AttributeError ''login''), s)
      | Some user \<Rightarrow>
          let order = \<lparr>o_user = login (user_of user), o_date = now, o_items = cart s,
                       o_address = address (user_of user), o_payment_method = payment_method,
                       o_status = In_processing\<rparr>;
              orders = load_orders (db s);
              orders1 = orders @ [order];
              s1 = s\<lparr>db := save_orders orders1 (db s)\<rparr>;
              s2 = s1\<lparr>cart := []\<rparr>;
              s3 = s2\<lparr>message_boxes := message_boxes s2 @ [Order_confirmed payment_method]\<rparr>
          in (Inr (), show_main s3))"

text \<open>
  The confirm button belongs to the order confirmation page, and a page of the stacked
  widget takes clicks only while it is the current one. \<open>confirm\<close> is the checkout
  button of the cart page, \<open>show_order_confirmation\<close>, followed by the confirm button
  when the confirmation page is then on display.
\<close>

definition click_confirm :: "string \<Rightarrow> string \<Rightarrow> 'n app \<Rightarrow> (error + unit) \<times> 'n app" where
  "click_confirm payment_method now s =
     (if current_widget s = Order_confirmation_page then confirm_order payment_method now s
      else (Inr (), s))"

definition confirm :: "('n::{zero,plus} \<Rightarrow> string) \<Rightarrow> string \<Rightarrow> string \<Rightarrow> 'n app \<Rightarrow> (error + unit) \<times> 'n app" where
  "confirm format_2f payment_method now s =
     (case show_order_confirmation format_2f s of
        (Inl e, s1) \<Rightarrow> (Inl e, s1)
      | (Inr _, s1) \<Rightarrow> click_confirm payment_method now s1)"

fun add_lines :: "('n::{zero,plus} \<Rightarrow> string) \<Rightarrow> 'n cart_item list \<Rightarrow> 'n app \<Rightarrow> 'n app" where
  "add_lines format_2f [] s = s"
| "add_lines format_2f (data # rest) s = add_lines format_2f rest (add_to_cart format_2f data s)"

text \<open>
  \<open>handle_login\<close>: a user object is always truthy, so the branch is taken exactly when
  \<open>login_user\<close> returns one.
\<close>

definition show_admin_page :: "'n app \<Rightarrow> 'n app" where
  "show_admin_page s = s\<lparr>current_widget := Admin_page\<rparr>"

definition handle_login :: "string \<Rightarrow> string \<Rightarrow> 'n app \<Rightarrow> (error + unit) \<times> 'n app" where
  "handle_login lg pw s =
     (case login_user lg pw (db s) of
        (Inl e, d) \<Rightarrow> (Inl e, s\<lparr>db := d\<rparr>)
      | (Inr None, d) \<Rightarrow>
          (Inr (), s\<lparr>db := d, message_boxes := message_boxes s @ [Login_failed]\<rparr>)
      | (Inr (Some user), d) \<Rightarrow>
          let s1 = s\<lparr>db := d, current_user := Some user\<rparr>
          in (Inr (), if role (user_of user) = ''admin'' then show_admin_page s1 else show_main s1))"

text \<open>
  The buttons and list items that reach the cart, the session or the orders. A run is a
  sequence of clicks, stopped by the first exception. Only the confirm button is tied
  to its page here; the other handlers are taken to be callable in every state, which
  allows more runs than the window does.
\<close>

datatype 'n click =
    Login_click string string
  | Menu_item_click "'n cart_item"
  | Cart_click
  | Back_click
  | Checkout_click
  | Confirm_click string string
  | Logout_click

fun handle :: "('n::{zero,plus} \<Rightarrow> string) \<Rightarrow> 'n click \<Rightarrow> 'n app \<Rightarrow> (error + unit) \<times> 'n app" where
  "handle format_2f (Login_click lg pw) s = handle_login lg pw s"
| "handle format_2f (Menu_item_click data) s = (Inr (), add_to_cart format_2f data s)"
| "handle format_2f Cart_click s = (Inr (), show_cart format_2f s)"
| "handle format_2f Back_click s = (Inr (), show_main s)"
| "handle format_2f Checkout_click s = show_order_confirmation format_2f s"
| "handle format_2f (Confirm_click payment_method now) s = click_confirm payment_method now s"
| "handle format_2f Logout_click s = (Inr (), logout s)"

fun run :: "('n::{zero,plus} \<Rightarrow> string) \<Rightarrow> 'n click list \<Rightarrow> 'n app \<Rightarrow> (error + unit) \<times> 'n app" where
  "run format_2f [] s = (Inr (), s)"
| "run format_2f (c # cs) s =
     (case handle format_2f c s of
        (Inl e, s1) \<Rightarrow> (Inl e, s1)
      | (Inr _, s1) \<Rightarrow> run format_2f cs s1)"

text \<open>
  What every run keeps: while the confirmation page is on display the cart has a line,
  and every stored order has a line.
\<close>

definition lines_inv :: "'n app \<Rightarrow> bool" where
  "lines_inv s \<longleftrightarrow>
     (current_widget s = Order_confirmation_page \<longrightarrow> cart s \<noteq> []) \<and>
     (\<forall>ord\<in>set (orders_file (db s)). o_items ord \<noteq> [])"

text \<open>
  No rounding on the way: every price of the list is a double, and so is every partial
  sum, taken from \<open>acc\<close> in list order.
\<close>

fun exact_sums :: "pynum cart_item list \<Rightarrow> rat \<Rightarrow> bool" where
  "exact_sums [] acc = True"
| "exact_sums (item # rest) acc =
     (round53 (num_val (c_price item)) = num_val (c_price item) \<and>
      round53 (acc + num_val (c_price item)) = acc + num_val (c_price item) \<and>
      exact_sums rest (acc + num_val (c_price item)))"

section \<open>Registration\<close>

text \<open>
  What \<open>re.match\<close> accepts: a non-empty string of characters of the class, or such a
  string followed by one newline.
\<close>

lemma re_match_alnum_iff:
  "re_match_alnum s \<longleftrightarrow>
     (s \<noteq> [] \<and> (\<forall>c\<in>set s. alnum c)) \<or>
     (\<exists>b. b \<noteq> [] \<and> (\<forall>c\<in>set b. alnum c) \<and> s = b @ [CHR 0x0A])"
proof -
  have nl: "\<not> alnum (CHR 0x0A)" by (simp add: alnum_def)
  show ?thesis
  proof
    assume m: "re_match_alnum s"
    let ?run = "takeWhile alnum s" and ?rest = "dropWhile alnum s"
    from m have run: "?run \<noteq> []" and rest: "?rest = [] \<or> ?rest = [CHR 0x0A]"
      by (simp_all add: re_match_alnum_def Let_def)
    have s: "s = ?run @ ?rest" by simp
    have all: "\<forall>c\<in>set ?run. alnum c" by (auto dest: set_takeWhileD)
    from rest show "(s \<noteq> [] \<and> (\<forall>c\<in>set s. alnum c)) \<or>
     (\<exists>b. b \<noteq> [] \<and> (\<forall>c\<in>set b. alnum c) \<and> s = b @ [CHR 0x0A])"
    proof
      assume "?rest = []"
      with s have "s = ?run" by simp
      with run all show ?thesis by metis
    next
      assume "?rest = [CHR 0x0A]"
      with s have "s = ?run @ [CHR 0x0A]" by simp
      with run all show ?thesis by blast
    qed
  next
    assume "(s \<noteq> [] \<and> (\<forall>c\<in>set s. alnum c)) \<or>
     (\<exists>b. b \<noteq> [] \<and> (\<forall>c\<in>set b. alnum c) \<and> s = b @ [CHR 0x0A])"
    then show "re_match_alnum s"
    proof
      assume a: "s \<noteq> [] \<and> (\<forall>c\<in>set s. alnum c)"
      then have tw: "takeWhile alnum s = s" and dw: "dropWhile alnum s = []" by simp_all
      show ?thesis unfolding re_match_alnum_def Let_def tw dw using a by simp
    next
      assume "\<exists>b. b \<noteq> [] \<and> (\<forall>c\<in>set b. alnum c) \<and> s = b @ [CHR 0x0A]"
      then obtain b where b: "b \<noteq> []" "\<forall>c\<in>set b. alnum c" "s = b @ [CHR 0x0A]" by blast
      then show ?thesis using nl
        by (simp add: re_match_alnum_def Let_def takeWhile_append2 dropWhile_append2)
    qed
  qed
qed

text \<open>What the scan for an existing login has established when it returns.\<close>

lemma any_login_False:
  "any_login users ud = Inr False \<Longrightarrow> u \<in> set users \<Longrightarrow>
     (\<exists>l. map_of u ''login'' = Some l) \<and> map_of u ''login'' \<noteq> map_of ud ''login''"
  by (induction users) (auto simp: getitem_def split: option.splits if_splits sum.splits)

lemma any_login_True:
  "any_login users ud = Inr True \<Longrightarrow>
     \<exists>u\<in>set users. \<exists>l. map_of u ''login'' = Some l \<and> map_of ud ''login'' = Some l"
  by (induction users) (auto simp: getitem_def split: option.splits if_splits sum.splits)

lemma any_login_wf:
  "\<forall>u\<in>set users. map_of u ''login'' \<noteq> None \<Longrightarrow> map_of ud ''login'' = Some l \<Longrightarrow>
   any_login users ud = Inr (\<exists>u\<in>set users. map_of u ''login'' = Some l)"
  by (induction users) (auto simp: getitem_def split: option.splits if_splits sum.splits)


text \<open>
  The record that is appended: the form without its \<open>'repeat_password'\<close> key and with
  \<open>'role'\<close> set to \<open>'user'\<close>; every other key keeps its value.
\<close>

lemma map_of_registered:
  "k \<noteq> ''repeat_password'' \<Longrightarrow> k \<noteq> ''role'' \<Longrightarrow>
   map_of (setitem (AList.delete ''repeat_password'' ud) ''role'' ''user'') k = map_of ud k"
  by (simp add: setitem_def update_conv' delete_conv')

lemma map_of_registered_role:
  "map_of (setitem (AList.delete ''repeat_password'' ud) ''role'' ''user'') ''role'' = Some ''user''"
  by (simp add: setitem_def update_conv')

lemma map_of_registered_repeat:
  "map_of (setitem (AList.delete ''repeat_password'' ud) ''role'' ''user'') ''repeat_password'' = None"
  by (simp add: setitem_def update_conv' delete_conv')

text \<open>
  The three checks in their order, for a form that has the keys the checks read and a
  store whose records all have a login.
\<close>

lemma register_user_eq:
  assumes users: "\<forall>u\<in>set (users_file base). map_of u ''login'' \<noteq> None"
    and lg: "map_of ud ''login'' = Some lg"
    and pw: "map_of ud ''password'' = Some pw"
    and rp: "map_of ud ''repeat_password'' = Some rp"
  shows "register_user ud base =
     (if \<exists>u\<in>set (users_file base). map_of u ''login'' = Some lg then (Inr (False, Login_exists), base)
      else if pw \<noteq> rp then (Inr (False, Passwords_differ), base)
      else if \<not> re_match_alnum pw then (Inr (False, Password_not_latin_alnum), base)
      else (Inr (True, Registration_ok),
            save_users (users_file base @ [setitem (AList.delete ''repeat_password'' ud) ''role'' ''user'']) base))"
  using pw rp
  by (simp add: register_user_def load_users_def any_login_wf [OF users lg] getitem_def pop_def)

text \<open>
  With a free login and a password equal to its repeat, the form is accepted exactly when
  the password is a non-empty string of the class, possibly followed by one newline.
\<close>

lemma register_user_password_check:
  assumes users: "\<forall>u\<in>set (users_file base). map_of u ''login'' \<noteq> None"
    and lg: "map_of ud ''login'' = Some lg"
    and free: "\<not> (\<exists>u\<in>set (users_file base). map_of u ''login'' = Some lg)"
    and pw: "map_of ud ''password'' = Some pw"
    and rp: "map_of ud ''repeat_password'' = Some pw"
  shows "fst (register_user ud base) = Inr (True, Registration_ok) \<longleftrightarrow>
     (pw \<noteq> [] \<and> (\<forall>c\<in>set pw. alnum c)) \<or>
     (\<exists>b. b \<noteq> [] \<and> (\<forall>c\<in>set b. alnum c) \<and> pw = b @ [CHR 0x0A])"
  using free by (simp add: register_user_eq [OF users lg pw rp] re_match_alnum_iff [symmetric])

text \<open>Only the success path writes.\<close>

lemma register_user_unchanged:
  assumes "fst (register_user ud base) \<noteq> Inr (True, Registration_ok)"
  shows "snd (register_user ud base) = base"
  using assms
  by (auto simp: register_user_def Let_def split: sum.splits if_splits prod.splits)



text \<open>
  C1. The claim: \<open>register\<close> fails exactly when the login is taken, or else the password
  differs from its repeat, or else the password is not a non-empty string of ASCII
  letters and digits, and succeeds otherwise. The code departs from it at a password
  that ends in a newline: with a store of one account, a form with a new login and the
  password \<open>Secret1\<close> followed by a newline passes all three checks, and the record is
  appended with that password and saved. (The order of the checks and what is appended
  are as claimed: \<open>register_user_eq\<close>, \<open>register_user_password_check\<close>.)
\<close>

theorem register_user_third_check_newline:
  "(\<exists>c\<in>set ''Secret1\<newline>''. \<not> alnum c) \<and>
   register_user
     [(''first_name'', ''Bob''), (''last_name'', ''Roe''), (''birth_date'', ''1999-05-05''),
      (''email'', ''bob@example.com''), (''login'', ''bob''), (''password'', ''Secret1\<newline>''),
      (''repeat_password'', ''Secret1\<newline>''), (''address'', ''Elm Street 1'')]
     (\<lparr>users_file = [[(''login'', ''admin''), (''password'', ''admin123''), (''role'', ''admin'')]],
       restaurants_file = [], orders_file = [], written = []\<rparr> :: real database)
   = (Inr (True, Registration_ok),
      \<lparr>users_file =
         [[(''login'', ''admin''), (''password'', ''admin123''), (''role'', ''admin'')],
          [(''first_name'', ''Bob''), (''last_name'', ''Roe''), (''birth_date'', ''1999-05-05''),
           (''email'', ''bob@example.com''), (''login'', ''bob''), (''password'', ''Secret1\<newline>''),
           (''address'', ''Elm Street 1''), (''role'', ''user'')]],
       restaurants_file = [], orders_file = [], written = [''users.json'']\<rparr>)"
  by (simp add: register_user_def load_users_def save_users_def getitem_def pop_def setitem_def
        re_match_alnum_def alnum_def)

text \<open>
  C4. The claim: with a free login and a password equal to its repeat, \<open>register\<close>
  rejects every password that has a character outside the class, control characters
  included, wherever it stands. The newline is outside the class, and the code accepts
  the password \<open>abc123\<close> followed by a newline on an empty store.
\<close>

theorem register_user_accepts_trailing_newline:
  "\<not> alnum (CHR 0x0A) \<and>
   register_user
     [(''first_name'', ''Al''), (''last_name'', ''Ice''), (''birth_date'', ''2000-01-01''),
      (''email'', ''a@b.c''), (''login'', ''alice''), (''password'', ''abc123\<newline>''),
      (''repeat_password'', ''abc123\<newline>''), (''address'', ''Home'')]
     (\<lparr>users_file = [], restaurants_file = [], orders_file = [], written = []\<rparr> :: real database)
   = (Inr (True, Registration_ok),
      \<lparr>users_file =
         [[(''first_name'', ''Al''), (''last_name'', ''Ice''), (''birth_date'', ''2000-01-01''),
           (''email'', ''a@b.c''), (''login'', ''alice''), (''password'', ''abc123\<newline>''),
           (''address'', ''Home''), (''role'', ''user'')]],
       restaurants_file = [], orders_file = [], written = [''users.json'']\<rparr>)"
  by (simp add: register_user_def load_users_def save_users_def getitem_def pop_def setitem_def
        re_match_alnum_def alnum_def)

text \<open>
  C9. If the logins of the stored accounts are pairwise distinct, they are pairwise
  distinct in the store after \<open>register_user\<close>, whatever the form and whatever the
  outcome: a failure, an exception or a success.
\<close>

theorem register_user_keeps_logins_distinct:
  assumes d: "distinct (map (\<lambda>u. map_of u ''login'') (users_file base))"
  shows "distinct (map (\<lambda>u. map_of u ''login'') (users_file (snd (register_user ud base))))"
proof (cases "fst (register_user ud base) = Inr (True, Registration_ok)")
  case False
  then show ?thesis using d by (simp add: register_user_unchanged)
next
  case True
  then have no: "any_login (users_file base) ud = Inr False"
    and eq: "snd (register_user ud base) =
       save_users (users_file base @ [setitem (AList.delete ''repeat_password'' ud) ''role'' ''user'']) base"
    by (auto simp: register_user_def Let_def load_users_def pop_def
             split: sum.splits if_splits prod.splits option.splits)
  have "map_of ud ''login'' \<notin> (\<lambda>u. map_of u ''login'') ` set (users_file base)"
    using any_login_False [OF no] by force
  with d show ?thesis by (simp add: eq save_users_def map_of_registered)
qed

theorem register_user_keeps_logins_distinct_witness:
  "distinct (map (\<lambda>u. map_of u ''login'') [[(''login'', ''admin''), (''password'', ''admin123'')]]) \<and>
   distinct (map (\<lambda>u. map_of u ''login'')
     (users_file (snd (register_user
        [(''login'', ''alice''), (''password'', ''abc123''), (''repeat_password'', ''abc123'')]
        (\<lparr>users_file = [[(''login'', ''admin''), (''password'', ''admin123'')]],
          restaurants_file = [], orders_file = [], written = []\<rparr> :: real database)))))"
  using register_user_keeps_logins_distinct
    [of "\<lparr>users_file = [[(''login'', ''admin''), (''password'', ''admin123'')]],
          restaurants_file = [], orders_file = [], written = []\<rparr> :: real database"
        "[(''login'', ''alice''), (''password'', ''abc123''), (''repeat_password'', ''abc123'')]"]
  by simp

text \<open>
  C10. Whenever \<open>register_user\<close> does not return success (it returns one of the three
  failures, or raises), the database after the call is the database before it: the
  users file has the same records and no file has been opened for writing.
\<close>

theorem register_user_failure_atomic:
  assumes "fst (register_user ud base) \<noteq> Inr (True, Registration_ok)"
  shows "snd (register_user ud base) = base"
  using assms by (rule register_user_unchanged)

theorem register_user_failure_atomic_witness:
  "fst (register_user
        [(''login'', ''admin''), (''password'', ''abc123''), (''repeat_password'', ''abc123'')]
        (\<lparr>users_file = [[(''login'', ''admin''), (''password'', ''admin123'')]],
          restaurants_file = [], orders_file = [], written = []\<rparr> :: real database))
     \<noteq> Inr (True, Registration_ok) \<and>
   snd (register_user
        [(''login'', ''admin''), (''password'', ''abc123''), (''repeat_password'', ''abc123'')]
        (\<lparr>users_file = [[(''login'', ''admin''), (''password'', ''admin123'')]],
          restaurants_file = [], orders_file = [], written = []\<rparr> :: real database))
    = \<lparr>users_file = [[(''login'', ''admin''), (''password'', ''admin123'')]],
          restaurants_file = [], orders_file = [], written = []\<rparr>"
proof -
  have h: "fst (register_user
        [(''login'', ''admin''), (''password'', ''abc123''), (''repeat_password'', ''abc123'')]
        (\<lparr>users_file = [[(''login'', ''admin''), (''password'', ''admin123'')]],
          restaurants_file = [], orders_file = [], written = []\<rparr> :: real database))
     \<noteq> Inr (True, Registration_ok)"
    by (simp add: register_user_def load_users_def getitem_def)
  from h register_user_failure_atomic [OF h] show ?thesis by simp
qed

section \<open>Authentication\<close>





section \<open>Publishing search results\<close>

lemma notify_loop_eq: "notify_loop obs m cs = cs @ map (\<lambda>ob. (ob, m)) obs"
  by (induction obs arbitrary: cs) simp_all

lemma run_calls_fields:
  "run_calls cs s = Inr s' \<Longrightarrow> results s' = results s \<and> calls s' = calls s"
  by (induction cs s rule: run_calls.induct) (auto simp: attach_def detach_def split: if_splits)

lemma count_list_remove1_mem:
  "x \<in> set xs \<Longrightarrow> count_list (remove1 x xs) y + (if y = x then 1 else 0) = count_list xs y"
  by (induction xs) auto

lemma run_calls_count:
  "run_calls cs s = Inr s' \<Longrightarrow>
   count_list (observers s') ob + count_list (detached cs) ob =
   count_list (observers s) ob + count_list (attached cs) ob"
proof (induction cs s rule: run_calls.induct)
  case (3 observer cs s)
  then have mem: "observer \<in> set (observers s)"
    and run: "run_calls cs (s\<lparr>observers := remove1 observer (observers s)\<rparr>) = Inr s'"
    by (auto simp: detach_def split: if_splits)
  from "3.IH" [of "s\<lparr>observers := remove1 observer (observers s)\<rparr>"] mem run
  have "count_list (observers s') ob + count_list (detached cs) ob =
        count_list (remove1 observer (observers s)) ob + count_list (attached cs) ob"
    by (simp add: detach_def)
  with count_list_remove1_mem [OF mem, of ob] show ?case by auto
qed (auto simp: attach_def)

lemma subseq_remove1: "subseq (remove1 x xs) xs"
  by (induction xs) auto

lemma run_calls_subseq:
  "run_calls cs s = Inr s' \<Longrightarrow> subseq (observers s') (observers s @ attached cs)"
proof (induction cs s rule: run_calls.induct)
  case (3 observer cs s)
  then have mem: "observer \<in> set (observers s)"
    and run: "run_calls cs (s\<lparr>observers := remove1 observer (observers s)\<rparr>) = Inr s'"
    by (auto simp: detach_def split: if_splits)
  from "3.IH" [of "s\<lparr>observers := remove1 observer (observers s)\<rparr>"] mem run
  have "subseq (observers s') (remove1 observer (observers s) @ attached cs)"
    by (simp add: detach_def)
  moreover have "subseq (remove1 observer (observers s) @ attached cs) (observers s @ attached cs)"
    by (intro list_emb_append_mono subseq_remove1 subseq_order.order_refl)
  ultimately show ?case by (auto intro: subseq_order.order_trans)
qed (auto simp: attach_def)

text \<open>
  C8. After any sequence of \<open>attach\<close> and \<open>detach\<close> calls on a fresh subject that
  raises no exception, \<open>update_results\<close> stores the results and calls \<open>update\<close> with
  these results once for each entry of the observer list, in list order. An observer
  is in the list once for each of its attachments that no \<open>detach\<close> has taken back,
  and the list is in the order of the \<open>attach\<close> calls.
\<close>

theorem update_results_notifies_attached:
  assumes fresh: "observers s0 = []" and run: "run_calls cs s0 = Inr s"
  shows "results (update_results rs s) = rs \<and>
         observers (update_results rs s) = observers s \<and>
         calls (update_results rs s) = calls s0 @ map (\<lambda>ob. (ob, rs)) (observers s) \<and>
         (\<forall>ob. count_list (observers s) ob + count_list (detached cs) ob = count_list (attached cs) ob) \<and>
         subseq (observers s) (attached cs)"
  using run_calls_fields [OF run] run_calls_count [OF run] run_calls_subseq [OF run] fresh
  by (simp add: update_results_def notify_def notify_loop_eq)

theorem update_results_notifies_attached_witness:
  "observers (\<lparr>observers = [], results = [], calls = []\<rparr> :: (nat, string list) search_subject) = [] \<and>
   run_calls [Attach 1, Attach 2, Attach 1, Detach 1] (\<lparr>observers = [], results = [], calls = []\<rparr> :: (nat, string list) search_subject)
     = Inr \<lparr>observers = [2, 1], results = [], calls = []\<rparr> \<and>
   calls (update_results [''x''] (\<lparr>observers = [2, 1], results = [], calls = []\<rparr> :: (nat, string list) search_subject))
     = [(2, [''x'']), (1, [''x''])]"
proof -
  let ?s0 = "\<lparr>observers = [], results = [], calls = []\<rparr> :: (nat, string list) search_subject"
  have f: "observers ?s0 = []" by simp
  have r: "run_calls [Attach 1, Attach 2, Attach 1, Detach 1] ?s0 = Inr \<lparr>observers = [2, 1], results = [], calls = []\<rparr>"
    by (simp add: attach_def detach_def)
  from update_results_notifies_attached [OF f r, of "[''x'']"] f r show ?thesis by simp
qed


section \<open>Listing restaurants\<close>

lemma py_sorted_mset: "mset (py_sorted key reverse items) = mset items"
  by (simp add: py_sorted_def)

lemma py_sorted_ascending: "sorted_wrt (\<lambda>x y. key x \<le> key y) (py_sorted key False items)"
  using sorted_sort_key [of key items] by (simp add: py_sorted_def sorted_map)

lemma py_sorted_descending: "sorted_wrt (\<lambda>x y. key y \<le> key x) (py_sorted key True items)"
  using sorted_sort_key [of key "rev items"] by (simp add: py_sorted_def sorted_map sorted_wrt_rev)

lemma py_sorted_stable:
  "filter (\<lambda>x. key x = k) (py_sorted key reverse items) = filter (\<lambda>x. key x = k) items"
  by (simp add: py_sorted_def sort_key_stable rev_filter [symmetric])

text \<open>
  C7. Sorting by name gives the restaurants in ascending order of name, sorting by
  rating gives them in descending order of rating, where a restaurant without a rating
  counts as 4.0, and restaurants of equal rating stay in their original order. Both
  give back the same records, and the listing leaves the database as it is.
\<close>

theorem sort_strategies:
  "sorted_wrt (\<lambda>x y. r_name x \<le> r_name y) (SortByName_sort (items :: 'n restaurant list)) \<and>
   mset (SortByName_sort items) = mset items \<and>
   sorted_wrt (\<lambda>x y. rating_key x \<ge> rating_key y) (SortByRating_sort items) \<and>
   mset (SortByRating_sort items) = mset items \<and>
   (\<forall>k. filter (\<lambda>x. rating_key x = k) (SortByRating_sort items) = filter (\<lambda>x. rating_key x = k) items) \<and>
   (\<forall>x :: 'n restaurant. rating_key x = (case r_rating x of None \<Rightarrow> 4.0 | Some r \<Rightarrow> r)) \<and>
   list_restaurants sort_index base =
     ((if sort_index = 0 then SortByName_sort (restaurants_file base)
       else SortByRating_sort (restaurants_file base)), base)"
proof (intro conjI allI)
  show "sorted_wrt (\<lambda>x y. r_name x \<le> r_name y) (SortByName_sort items)"
    unfolding SortByName_sort_def by (rule py_sorted_ascending)
  show "mset (SortByName_sort items) = mset items"
    unfolding SortByName_sort_def by (rule py_sorted_mset)
  show "sorted_wrt (\<lambda>x y. rating_key x \<ge> rating_key y) (SortByRating_sort items)"
    unfolding SortByRating_sort_def by (rule py_sorted_descending)
  show "mset (SortByRating_sort items) = mset items"
    unfolding SortByRating_sort_def by (rule py_sorted_mset)
  show "filter (\<lambda>x. rating_key x = k) (SortByRating_sort items) = filter (\<lambda>x. rating_key x = k) items" for k
    unfolding SortByRating_sort_def by (rule py_sorted_stable)
  show "rating_key x = (case r_rating x of None \<Rightarrow> 4.0 | Some r \<Rightarrow> r)" for x :: "'n restaurant"
    by (simp add: rating_key_def)
  show "list_restaurants sort_index base =
     ((if sort_index = 0 then SortByName_sort (restaurants_file base)
       else SortByRating_sort (restaurants_file base)), base)"
    by (simp add: list_restaurants_def load_restaurants_def)
qed

theorem sort_strategies_witness:
  "SortByRating_sort
     [\<lparr>r_id = 1, r_name = ''Bistro'', r_description = ''French'', r_rating = Some 3.9, r_menu = []\<rparr>,
      \<lparr>r_id = 2, r_name = ''Asia'', r_description = ''Wok'', r_rating = None, r_menu = []\<rparr>,
      \<lparr>r_id = 3, r_name = ''Pizza Place'', r_description = ''Italian'', r_rating = Some 4.5, r_menu = []\<rparr>,
      \<lparr>r_id = 4, r_name = ''Cafe'', r_description = ''Coffee'', r_rating = Some 4, r_menu = []\<rparr>,
      \<lparr>r_id = 5, r_name = ''Diner'', r_description = ''Burgers'', r_rating = Some 4.5,
        r_menu = ([] :: real menu_item list)\<rparr>]
   = [\<lparr>r_id = 3, r_name = ''Pizza Place'', r_description = ''Italian'', r_rating = Some 4.5, r_menu = []\<rparr>,
      \<lparr>r_id = 5, r_name = ''Diner'', r_description = ''Burgers'', r_rating = Some 4.5, r_menu = []\<rparr>,
      \<lparr>r_id = 2, r_name = ''Asia'', r_description = ''Wok'', r_rating = None, r_menu = []\<rparr>,
      \<lparr>r_id = 4, r_name = ''Cafe'', r_description = ''Coffee'', r_rating = Some 4, r_menu = []\<rparr>,
      \<lparr>r_id = 1, r_name = ''Bistro'', r_description = ''French'', r_rating = Some 3.9, r_menu = []\<rparr>] \<and>
   map r_name (SortByName_sort
     [\<lparr>r_id = 1, r_name = ''Bistro'', r_description = ''French'', r_rating = Some 3.9, r_menu = []\<rparr>,
      \<lparr>r_id = 2, r_name = ''Asia'', r_description = ''Wok'', r_rating = None, r_menu = []\<rparr>,
      \<lparr>r_id = 3, r_name = ''asia'', r_description = ''Noodles'', r_rating = Some 4.5,
        r_menu = ([] :: real menu_item list)\<rparr>])
   = [''Asia'', ''Bistro'', ''asia'']"
  using sort_strategies [of "[] :: real restaurant list" 0 "\<lparr>users_file = [], restaurants_file = [],
    orders_file = [], written = []\<rparr> :: real database"]
  by (simp add: SortByRating_sort_def SortByName_sort_def py_sorted_def rating_key_def)

section \<open>Searching\<close>

lemma menu_loop_eq:
  "menu_loop query restaurant items rs =
     rs @ map (dish_result restaurant) (filter (\<lambda>item. sublist query (lower (i_name item))) items)"
  by (induction items arbitrary: rs) simp_all

lemma restaurant_loop_eq:
  "restaurant_loop query restaurants rs =
     rs @ concat (map (\<lambda>restaurant.
        (if sublist query (lower (r_name restaurant)) then [restaurant_result restaurant] else []) @
        map (dish_result restaurant)
          (filter (\<lambda>item. sublist query (lower (i_name item))) (r_menu restaurant))) restaurants)"
  by (induction restaurants arbitrary: rs) (simp_all add: menu_loop_eq Let_def)

lemma lower_eq_Nil [simp]: "lower s = [] \<longleftrightarrow> s = []"
  by (simp add: lower_def)

text \<open>
  C6. For a query that is not empty, \<open>handle_search\<close> publishes, restaurant by
  restaurant in stored order, one restaurant result if the lower-cased name of the
  restaurant contains the lower-cased query, followed by one dish result for each item
  of its menu, in menu order, whose lower-cased name contains the lower-cased query,
  whether or not the restaurant matched. A second query with the same lower-cased
  form publishes the same sequence.
\<close>

theorem handle_search_matches:
  assumes "text \<noteq> []" and "lower text' = lower text"
  shows "handle_search text base =
     Update_results (concat (map (\<lambda>restaurant.
        (if sublist (lower text) (lower (r_name restaurant)) then [restaurant_result restaurant] else []) @
        map (dish_result restaurant)
          (filter (\<lambda>item. sublist (lower text) (lower (i_name item))) (r_menu restaurant)))
        (restaurants_file base))) \<and>
     handle_search text' base = handle_search text base"
  using assms by (simp add: handle_search_def restaurant_loop_eq load_restaurants_def Let_def)


theorem handle_search_matches_witness:
  "handle_search ''Piz''
     (\<lparr>users_file = [],
       restaurants_file =
         [\<lparr>r_id = 1, r_name = ''Pizza Place'', r_description = ''Italian'', r_rating = None,
           r_menu = [\<lparr>i_id = 10, i_name = ''Cola'', i_description = ''Cold'', i_price = 99.5\<rparr>,
                     \<lparr>i_id = 11, i_name = ''Pizza Margherita'', i_description = ''Classic'', i_price = 450\<rparr>]\<rparr>,
          \<lparr>r_id = 2, r_name = ''Sushi Bar'', r_description = ''Japanese'', r_rating = Some 4.8,
           r_menu = [\<lparr>i_id = 20, i_name = ''Sushi PIZZA'', i_description = ''Fusion'', i_price = 390\<rparr>]\<rparr>],
       orders_file = [], written = []\<rparr> :: real database)
   = Update_results
       [Restaurant_result 1 ''Pizza Place'' ''Italian'' 4.5,
        Dish_result 1 ''Pizza Place'' ''Pizza Margherita'' ''Classic'' 450,
        Dish_result 2 ''Sushi Bar'' ''Sushi PIZZA'' ''Fusion'' 390] \<and>
   handle_search ''piz''
     (\<lparr>users_file = [],
       restaurants_file =
         [\<lparr>r_id = 1, r_name = ''Pizza Place'', r_description = ''Italian'', r_rating = None,
           r_menu = [\<lparr>i_id = 10, i_name = ''Cola'', i_description = ''Cold'', i_price = 99.5\<rparr>,
                     \<lparr>i_id = 11, i_name = ''Pizza Margherita'', i_description = ''Classic'', i_price = 450\<rparr>]\<rparr>,
          \<lparr>r_id = 2, r_name = ''Sushi Bar'', r_description = ''Japanese'', r_rating = Some 4.8,
           r_menu = [\<lparr>i_id = 20, i_name = ''Sushi PIZZA'', i_description = ''Fusion'', i_price = 390\<rparr>]\<rparr>],
       orders_file = [], written = []\<rparr> :: real database)
   = Update_results
       [Restaurant_result 1 ''Pizza Place'' ''Italian'' 4.5,
        Dish_result 1 ''Pizza Place'' ''Pizza Margherita'' ''Classic'' 450,
        Dish_result 2 ''Sushi Bar'' ''Sushi PIZZA'' ''Fusion'' 390]"
proof -
  have a: "''Piz'' \<noteq> []" by simp
  have b: "lower ''piz'' = lower ''Piz''" by (simp add: lower_def lower_char_def char_of_def bit_Suc_0_iff)
  from handle_search_matches [OF a b, of "\<lparr>users_file = [],
       restaurants_file =
         [\<lparr>r_id = 1, r_name = ''Pizza Place'', r_description = ''Italian'', r_rating = None,
           r_menu = [\<lparr>i_id = 10, i_name = ''Cola'', i_description = ''Cold'', i_price = 99.5\<rparr>,
                     \<lparr>i_id = 11, i_name = ''Pizza Margherita'', i_description = ''Classic'', i_price = 450\<rparr>]\<rparr>,
          \<lparr>r_id = 2, r_name = ''Sushi Bar'', r_description = ''Japanese'', r_rating = Some 4.8,
           r_menu = [\<lparr>i_id = 20, i_name = ''Sushi PIZZA'', i_description = ''Fusion'', i_price = 390\<rparr>]\<rparr>],
       orders_file = [], written = []\<rparr> :: real database"]
  show ?thesis
    by (simp add: lower_def lower_char_def char_of_def bit_Suc_0_iff sublist_code restaurant_result_def dish_result_def)
qed


text \<open>
  C3. The claim: the empty query and a query of white space only, such as three
  spaces, both give an empty result sequence for every collection of restaurants.
  The code tests the query for emptiness and does not strip it. With a restaurant
  \<open>Pizza Place\<close> that has a dish \<open>Cola   Zero\<close>, the query of three spaces publishes
  the dish and the query of one space publishes both.
\<close>

theorem handle_search_spaces_counterexample:
  "shown (handle_search ''   ''
     (\<lparr>users_file = [],
       restaurants_file =
         [\<lparr>r_id = 1, r_name = ''Pizza Place'', r_description = ''Italian'', r_rating = Some 4.5,
           r_menu = [\<lparr>i_id = 10, i_name = ''Cola   Zero'', i_description = ''Cold'', i_price = 99.5\<rparr>]\<rparr>],
       orders_file = [], written = []\<rparr> :: real database))
     = [Dish_result 1 ''Pizza Place'' ''Cola   Zero'' ''Cold'' 99.5] \<and>
   shown (handle_search '' ''
     (\<lparr>users_file = [],
       restaurants_file =
         [\<lparr>r_id = 1, r_name = ''Pizza Place'', r_description = ''Italian'', r_rating = Some 4.5,
           r_menu = [\<lparr>i_id = 10, i_name = ''Cola   Zero'', i_description = ''Cold'', i_price = 99.5\<rparr>]\<rparr>],
       orders_file = [], written = []\<rparr> :: real database))
     = [Restaurant_result 1 ''Pizza Place'' ''Italian'' 4.5,
        Dish_result 1 ''Pizza Place'' ''Cola   Zero'' ''Cold'' 99.5]"
  by (simp add: handle_search_def load_restaurants_def lower_def lower_char_def char_of_def
        bit_Suc_0_iff sublist_code restaurant_result_def dish_result_def)

text \<open>White space has no lower-case form of its own.\<close>

lemma lower_char_space: "isspace c \<Longrightarrow> lower_char c = c"
  by (auto simp: isspace_def lower_char_def Let_def)

lemma lower_blank: "\<forall>c\<in>set ws. isspace c \<Longrightarrow> lower ws = ws"
  by (simp add: lower_def lower_char_space map_idI)

text \<open>
  C3, amended. The empty query clears the results and publishes nothing. A query of
  white space only is searched like any other: what it publishes is empty exactly when
  no restaurant name and no dish name contains it.
\<close>

theorem handle_search_blank:
  assumes "ws \<noteq> []" and "\<forall>c\<in>set ws. isspace c"
  shows "handle_search [] base = Clear_results \<and> shown (handle_search [] base) = [] \<and>
    handle_search ws base = Update_results (restaurant_loop ws (restaurants_file base) []) \<and>
    (shown (handle_search ws base) = [] \<longleftrightarrow>
       (\<forall>restaurant\<in>set (restaurants_file base).
          \<not> sublist ws (lower (r_name restaurant)) \<and>
          (\<forall>item\<in>set (r_menu restaurant). \<not> sublist ws (lower (i_name item)))))"
proof -
  have l: "lower ws = ws" using assms(2) by (rule lower_blank)
  have hs: "handle_search ws base = Update_results (restaurant_loop ws (restaurants_file base) [])"
    using assms(1) by (simp add: handle_search_def l load_restaurants_def)
  have "restaurant_loop ws (restaurants_file base) [] = [] \<longleftrightarrow>
       (\<forall>restaurant\<in>set (restaurants_file base).
          \<not> sublist ws (lower (r_name restaurant)) \<and>
          (\<forall>item\<in>set (r_menu restaurant). \<not> sublist ws (lower (i_name item))))"
    by (auto simp: restaurant_loop_eq filter_empty_conv)
  with hs show ?thesis by (simp add: handle_search_def)
qed

theorem handle_search_blank_witness:
  "isspace (CHR '' '') \<and>
   handle_search []
     (\<lparr>users_file = [],
       restaurants_file =
         [\<lparr>r_id = 1, r_name = ''Pizza Place'', r_description = ''Italian'', r_rating = Some 4.5,
           r_menu = [\<lparr>i_id = 10, i_name = ''Cola Zero'', i_description = ''Cold'', i_price = 99.5\<rparr>]\<rparr>],
       orders_file = [], written = []\<rparr> :: real database) = Clear_results \<and>
   handle_search ''   ''
     (\<lparr>users_file = [],
       restaurants_file =
         [\<lparr>r_id = 1, r_name = ''Pizza Place'', r_description = ''Italian'', r_rating = Some 4.5,
           r_menu = [\<lparr>i_id = 10, i_name = ''Cola Zero'', i_description = ''Cold'', i_price = 99.5\<rparr>]\<rparr>],
       orders_file = [], written = []\<rparr> :: real database) = Update_results []"
proof -
  have a: "''   '' \<noteq> []" by simp
  have b: "\<forall>c\<in>set ''   ''. isspace c" by (simp add: isspace_def)
  from handle_search_blank [OF a b, of "\<lparr>users_file = [],
       restaurants_file =
         [\<lparr>r_id = 1, r_name = ''Pizza Place'', r_description = ''Italian'', r_rating = Some 4.5,
           r_menu = [\<lparr>i_id = 10, i_name = ''Cola Zero'', i_description = ''Cold'', i_price = 99.5\<rparr>]\<rparr>],
       orders_file = [], written = []\<rparr> :: real database"]
  show ?thesis
    by (simp add: isspace_def lower_def lower_char_def char_of_def bit_Suc_0_iff sublist_code)
qed


section \<open>From the cart to an order\<close>

text \<open>
  The total is the left-to-right sum of the prices, starting from 0, in whatever
  arithmetic the prices have; where addition is associative with unit 0 it is
  \<open>sum_list\<close>.
\<close>

lemma total_loop_foldl: "total_loop items t = foldl (+) t (map c_price items)"
  by (induction items arbitrary: t) simp_all

lemma total_loop_sum_list:
  fixes t :: "'n::monoid_add"
  shows "total_loop items t = t + sum_list (map c_price items)"
  by (induction items arbitrary: t) (simp_all add: add.assoc)

text \<open>Adding lines changes the cart and the widgets computed from it, nothing else that matters here.\<close>

lemma add_to_cart_fields:
  "cart (add_to_cart f d s) = cart s @ [d] \<and> db (add_to_cart f d s) = db s \<and>
   current_user (add_to_cart f d s) = current_user s \<and>
   current_widget (add_to_cart f d s) = current_widget s"
  by (simp add: add_to_cart_def update_cart_def Let_def)

lemma add_lines_fields:
  "cart (add_lines f ls s) = cart s @ ls \<and> db (add_lines f ls s) = db s \<and>
   current_user (add_lines f ls s) = current_user s \<and>
   current_widget (add_lines f ls s) = current_widget s"
  by (induction ls arbitrary: s) (simp_all add: add_to_cart_fields)

text \<open>The two outcomes of \<open>confirm\<close>.\<close>

lemma confirm_nonempty:
  assumes c: "cart s \<noteq> []" and u: "current_user s = Some user"
  shows "fst (confirm f pm now s) = Inr () \<and>
    db (snd (confirm f pm now s)) =
      save_orders (orders_file (db s) @
        [\<lparr>o_user = login (user_of user), o_date = now, o_items = cart s,
          o_address = address (user_of user), o_payment_method = pm,
          o_status = In_processing\<rparr>]) (db s) \<and>
    cart (snd (confirm f pm now s)) = [] \<and>
    current_user (snd (confirm f pm now s)) = Some user \<and>
    current_widget (snd (confirm f pm now s)) = Main_page \<and>
    order_summary (snd (confirm f pm now s)) =
      (map (\<lambda>item. (c_name item, f (c_price item))) (cart s), f (total_loop (cart s) 0)) \<and>
    delivery_address (snd (confirm f pm now s)) = address (user_of user)"
  using c u
  by (simp add: confirm_def show_order_confirmation_def click_confirm_def confirm_order_def
        show_main_def load_orders_def Let_def)

lemma confirm_empty:
  assumes c: "cart s = []" and w: "current_widget s \<noteq> Order_confirmation_page"
  shows "confirm f pm now s = (Inr (), s\<lparr>message_boxes := message_boxes s @ [Cart_is_empty]\<rparr>)"
  using c w
  by (simp add: confirm_def show_order_confirmation_def click_confirm_def)

text \<open>
  Adding lines to an empty cart and confirming, for any number type and any rendering
  of numbers.
\<close>

lemma add_lines_confirm:
  fixes format_2f :: "'n::{zero,plus} \<Rightarrow> string" and s :: "'n app"
    and ls :: "'n cart_item list" and user :: account and pm now :: string
  assumes empty: "cart s = []" and user: "current_user s = Some user" and n: "ls \<noteq> []"
  defines "s1 \<equiv> add_lines format_2f ls s"
  defines "s2 \<equiv> snd (confirm format_2f pm now s1)"
  defines "placed \<equiv> \<lparr>o_user = login (user_of user), o_date = now, o_items = ls,
                      o_address = address (user_of user), o_payment_method = pm,
                      o_status = In_processing\<rparr>"
  shows "cart s1 = ls \<and>
         fst (confirm format_2f pm now s1) = Inr () \<and>
         orders_file (db s2) = orders_file (db s) @ [placed] \<and>
         written (db s2) = written (db s) @ [''orders.json''] \<and>
         users_file (db s2) = users_file (db s) \<and>
         restaurants_file (db s2) = restaurants_file (db s) \<and>
         snd (order_summary s2) = format_2f (total_loop ls 0) \<and>
         cart s2 = [] \<and>
         confirm format_2f pm' now' s2 =
           (Inr (), s2\<lparr>message_boxes := message_boxes s2 @ [Cart_is_empty]\<rparr>)"
proof -
  from add_lines_fields [of format_2f ls s] empty user
  have c1: "cart s1 = ls" and d1: "db s1 = db s" and u1: "current_user s1 = Some user"
    by (simp_all add: s1_def)
  from c1 n have ne: "cart s1 \<noteq> []" by simp
  note cf = confirm_nonempty [OF ne u1, of format_2f pm now, folded s2_def]
  from cf have c2: "cart s2 = []" and w2: "current_widget s2 \<noteq> Order_confirmation_page"
    by simp_all
  have again: "confirm format_2f pm' now' s2 =
           (Inr (), s2\<lparr>message_boxes := message_boxes s2 @ [Cart_is_empty]\<rparr>)"
    by (rule confirm_empty [OF c2 w2])
  from cf c1 d1 again show ?thesis
    by (simp add: placed_def save_orders_def)
qed

subsection \<open>Rounding\<close>

text \<open>
  \<open>exponent\<close> is the binary exponent; \<open>round53\<close> gives a significand of 53 bits at
  that exponent and is off by at most half a unit in the last place;
  \<open>round_half_even\<close> is off by at most one half.
\<close>

lemma pow2_power_int: "pow2 k = power_int 2 k"
  by (simp add: pow2_def power_int_def field_simps)

lemma pow2_pos: "0 < pow2 k"
  by (simp add: pow2_power_int)

lemma pow2_add: "pow2 (j + k) = pow2 j * pow2 k"
  by (simp add: pow2_power_int power_int_add)

lemma pow2_diff: "pow2 (j - k) = pow2 j / pow2 k"
  by (simp add: pow2_power_int power_int_diff)

lemma pow2_nat: "0 \<le> k \<Longrightarrow> pow2 k = 2 ^ nat k"
  by (simp add: pow2_def)

lemma exponent_bounds:
  assumes "x \<noteq> 0"
  shows "pow2 (exponent x) \<le> \<bar>x\<bar> \<and> \<bar>x\<bar> < pow2 (exponent x + 1)"
proof -
  obtain p q where pq: "quotient_of \<bar>x\<bar> = (p, q)" by (cases "quotient_of \<bar>x\<bar>")
  then have q: "0 < q" by (rule quotient_of_denom_pos)
  from pq have x: "\<bar>x\<bar> = of_int p / of_int q" by (rule quotient_of_div)
  from assms have "0 < \<bar>x\<bar>" by simp
  with x q have p: "0 < p" by (simp add: zero_less_divide_iff)
  let ?k = "bitlen p - bitlen q"
  from bitlen_bounds [OF p] have p1: "2 ^ nat (bitlen p - 1) \<le> p" and p2: "p < 2 ^ nat (bitlen p)"
    by simp_all
  from bitlen_bounds [OF q] have q1: "2 ^ nat (bitlen q - 1) \<le> q" and q2: "q < 2 ^ nat (bitlen q)"
    by simp_all
  have bp: "1 \<le> bitlen p" using p by (metis bitlen_eq_zero_iff bitlen_nonneg not_less zle_add1_eq_le zero_less_one add.commute add_0 less_le)
  have bq: "1 \<le> bitlen q" using q by (metis bitlen_eq_zero_iff bitlen_nonneg not_less zle_add1_eq_le zero_less_one add.commute add_0 less_le)
  have P1: "pow2 (bitlen p - 1) \<le> of_int p" using p1 bp
    by (simp add: pow2_nat)
  have P2: "of_int p < pow2 (bitlen p)" using p2 bp
    by (simp add: pow2_nat)
  have Q1: "pow2 (bitlen q - 1) \<le> of_int q" using q1 bq
    by (simp add: pow2_nat)
  have Q2: "of_int q < pow2 (bitlen q)" using q2 bq
    by (simp add: pow2_nat)
  have up: "\<bar>x\<bar> < pow2 (?k + 1)"
  proof -
    have "of_int p / of_int q < pow2 (bitlen p) / pow2 (bitlen q - 1)"
      using P2 Q1 q p pow2_pos [of "bitlen q - 1"]
      by (intro frac_less) simp_all
    also have "\<dots> = pow2 (?k + 1)"
      by (simp add: pow2_diff [symmetric] algebra_simps)
    finally show ?thesis by (simp add: x)
  qed
  have lo: "pow2 (?k - 1) \<le> \<bar>x\<bar>"
  proof -
    have "pow2 (bitlen p - 1) / pow2 (bitlen q) \<le> of_int p / of_int q"
      using P1 Q2 q p pow2_pos [of "bitlen p - 1"]
      by (intro frac_le) simp_all
    moreover have "pow2 (bitlen p - 1) / pow2 (bitlen q) = pow2 (?k - 1)"
      by (simp add: pow2_diff [symmetric] algebra_simps)
    ultimately show ?thesis by (simp add: x)
  qed
  show ?thesis
  proof (cases "pow2 ?k \<le> \<bar>x\<bar>")
    case True
    then have "exponent x = ?k" by (simp add: exponent_def pq)
    with True up show ?thesis by simp
  next
    case False
    then have "exponent x = ?k - 1" by (simp add: exponent_def pq)
    with False lo show ?thesis by simp
  qed
qed


lemma round_half_even_nearest: "\<bar>of_int (round_half_even x) - x\<bar> \<le> 1 / 2"
proof -
  have "of_int \<lfloor>x\<rfloor> \<le> x" "x < of_int \<lfloor>x\<rfloor> + 1" by linarith+
  then show ?thesis
    by (auto simp: round_half_even_def Let_def)
qed

lemma round_half_even_ge: "of_int a \<le> x \<Longrightarrow> a \<le> round_half_even x"
proof -
  assume "of_int a \<le> x"
  then have "a \<le> \<lfloor>x\<rfloor>" by (simp add: le_floor_iff)
  then show ?thesis by (auto simp: round_half_even_def Let_def)
qed

lemma round_half_even_le_floor: "round_half_even x \<le> \<lfloor>x\<rfloor> + 1"
  by (simp add: round_half_even_def Let_def)

lemma round_half_even_le: "x \<le> of_int b \<Longrightarrow> round_half_even x \<le> b"
proof -
  assume b: "x \<le> of_int b"
  then have f: "\<lfloor>x\<rfloor> \<le> b" by (simp add: floor_le_iff)
  show ?thesis
  proof (cases "x - of_int \<lfloor>x\<rfloor> < 1 / 2")
    case True
    with f show ?thesis by (simp add: round_half_even_def Let_def)
  next
    case False
    then have "of_int \<lfloor>x\<rfloor> < x" by linarith
    with b have "of_int \<lfloor>x\<rfloor> < (of_int b :: rat)" by linarith
    then have "\<lfloor>x\<rfloor> + 1 \<le> b" by simp
    with round_half_even_le_floor [of x] show ?thesis by linarith
  qed
qed

lemma pow2_numerals: "pow2 1 = 2" "pow2 52 = 2 ^ 52" "pow2 53 = 2 ^ 53"
  by (simp_all add: pow2_def)

lemma round53_error:
  assumes "x \<noteq> 0"
  shows "\<bar>round53 x - x\<bar> \<le> pow2 (exponent x - 53)"
proof -
  let ?u = "pow2 (exponent x - 52)"
  let ?m = "round_half_even (x / ?u)"
  have u: "0 < ?u" by (rule pow2_pos)
  have "(of_int ?m - x / ?u) * ?u = of_int ?m * ?u - x"
    using u by (simp add: left_diff_distrib)
  then have "\<bar>of_int ?m * ?u - x\<bar> = \<bar>of_int ?m - x / ?u\<bar> * ?u"
    using u by (metis abs_mult abs_of_pos)
  then have "\<bar>round53 x - x\<bar> = \<bar>of_int ?m - x / ?u\<bar> * ?u"
    using assms by (simp add: round53_def Let_def)
  also have "\<dots> \<le> 1 / 2 * ?u"
    using round_half_even_nearest [of "x / ?u"] u by (intro mult_right_mono) simp_all
  also have "1 / 2 * ?u = pow2 (exponent x - 53)"
    using pow2_add [of "exponent x - 53" 1] by (simp add: pow2_numerals)
  finally show ?thesis .
qed

lemma round53_significand:
  assumes "x \<noteq> 0"
  shows "\<exists>m. round53 x = of_int m * pow2 (exponent x - 52) \<and> 2 ^ 52 \<le> \<bar>m\<bar> \<and> \<bar>m\<bar> \<le> 2 ^ 53"
proof -
  let ?u = "pow2 (exponent x - 52)"
  let ?m = "round_half_even (x / ?u)"
  have u: "0 < ?u" by (rule pow2_pos)
  have "52 + (exponent x - 52) = exponent x" "53 + (exponent x - 52) = exponent x + 1"
    by simp_all
  with pow2_add [of 52 "exponent x - 52"] pow2_add [of 53 "exponent x - 52"]
  have e: "pow2 (exponent x) = 2 ^ 52 * ?u" "pow2 (exponent x + 1) = 2 ^ 53 * ?u"
    by (simp_all only: pow2_numerals)
  from exponent_bounds [OF assms] have b: "2 ^ 52 * ?u \<le> \<bar>x\<bar>" "\<bar>x\<bar> < 2 ^ 53 * ?u"
    unfolding e by simp_all
  have r: "round53 x = of_int ?m * ?u" using assms by (simp add: round53_def Let_def)
  have "2 ^ 52 \<le> \<bar>?m\<bar> \<and> \<bar>?m\<bar> \<le> 2 ^ 53"
  proof (cases "0 < x")
    case True
    with b u have "of_int (2 ^ 52) \<le> x / ?u" "x / ?u \<le> of_int (2 ^ 53)"
      by (simp_all add: pos_le_divide_eq pos_divide_le_eq)
    from round_half_even_ge [OF this(1)] round_half_even_le [OF this(2)]
    show ?thesis by simp
  next
    case False
    with assms have neg: "x < 0" by simp
    with b u have "of_int (- (2 ^ 53)) \<le> x / ?u" "x / ?u \<le> of_int (- (2 ^ 52))"
      by (simp_all add: pos_le_divide_eq pos_divide_le_eq)
    from round_half_even_ge [OF this(1)] round_half_even_le [OF this(2)]
    show ?thesis by simp
  qed
  with r show ?thesis by blast
qed

text \<open>
  Where no addition rounds, the total of the loop is the exact sum of the prices, and
  its rendering is that sum rounded to hundredths.
\<close>

lemma round53_0: "round53 0 = 0"
  by (simp add: round53_def)

lemma to_float_exact: "round53 (num_val x) = num_val x \<Longrightarrow> to_float x = num_val x"
  by (cases x) (simp_all add: to_float_def num_val_def)

lemma plus_exact:
  assumes "round53 (num_val a) = num_val a" and "round53 (num_val b) = num_val b"
    and "round53 (num_val a + num_val b) = num_val a + num_val b"
  shows "num_val (a + b) = num_val a + num_val b"
proof (cases "\<exists>m n. a = PyInt m \<and> b = PyInt n")
  case True
  then show ?thesis by (auto simp: plus_pynum_def num_val_def)
next
  case False
  then have "a + b = PyFloat (round53 (to_float a + to_float b))"
    by (cases a; cases b) (simp_all add: plus_pynum_def)
  with assms show ?thesis by (simp add: to_float_exact) (simp add: num_val_def)
qed

lemma total_loop_exact:
  assumes "exact_sums ls (num_val t)" and "round53 (num_val t) = num_val t"
  shows "num_val (total_loop ls t) = num_val t + sum_list (map (\<lambda>item. num_val (c_price item)) ls) \<and>
         round53 (num_val (total_loop ls t)) = num_val (total_loop ls t)"
  using assms
proof (induction ls arbitrary: t)
  case Nil
  then show ?case by simp
next
  case (Cons item rest)
  let ?v = "num_val (c_price item)"
  from Cons.prems have v: "round53 ?v = ?v" and sv: "round53 (num_val t + ?v) = num_val t + ?v"
    and rest: "exact_sums rest (num_val t + ?v)"
    by simp_all
  have eq: "num_val (t + c_price item) = num_val t + ?v"
    by (rule plus_exact [OF Cons.prems(2) v sv])
  have ex: "round53 (num_val (t + c_price item)) = num_val (t + c_price item)"
    using sv eq by simp
  have r: "exact_sums rest (num_val (t + c_price item))"
    using rest eq by simp
  from Cons.IH [OF r ex]
  have a: "num_val (total_loop rest (t + c_price item)) =
      num_val (t + c_price item) + sum_list (map (\<lambda>item. num_val (c_price item)) rest)"
    and b: "round53 (num_val (total_loop rest (t + c_price item))) =
      num_val (total_loop rest (t + c_price item))"
    by blast+
  have "num_val (total_loop (item # rest) t) =
      num_val t + sum_list (map (\<lambda>item. num_val (c_price item)) (item # rest))"
    unfolding total_loop.simps a eq by (simp add: add.assoc)
  moreover have "round53 (num_val (total_loop (item # rest) t)) = num_val (total_loop (item # rest) t)"
    unfolding total_loop.simps by (rule b)
  ultimately show ?case by blast
qed

lemma py_format_2f_exact:
  assumes "exact_sums ls 0"
  shows "py_format_2f (total_loop ls 0) = two_decimals (sum_list (map (\<lambda>item. num_val (c_price item)) ls))"
proof -
  have z: "num_val (0 :: pynum) = 0" by (simp add: zero_pynum_def num_val_def)
  have e: "exact_sums ls (num_val (0 :: pynum))" using assms z by simp
  have r: "round53 (num_val (0 :: pynum)) = num_val (0 :: pynum)" using z by (simp add: round53_0)
  from total_loop_exact [OF e r]
  have a: "num_val (total_loop ls 0) = num_val 0 + sum_list (map (\<lambda>item. num_val (c_price item)) ls)"
    and b: "round53 (num_val (total_loop ls 0)) = num_val (total_loop ls 0)"
    by blast+
  have "py_format_2f (total_loop ls 0) = two_decimals (num_val (total_loop ls 0))"
    unfolding py_format_2f_def by (simp only: to_float_exact [OF b])
  also have "num_val (total_loop ls 0) = sum_list (map (\<lambda>item. num_val (c_price item)) ls)"
    unfolding a z by simp
  finally show ?thesis .
qed

text \<open>
  C2. The claim: after adding \<open>n\<close> lines and confirming, the total is the sum of the
  line prices rounded to two decimal places. The code adds floats. With a line priced
  1.135 (the double that \<open>json.load\<close> reads from that literal) and a line priced
  250.0, the confirmation page shows 251.13, while the sum of the two prices rounded to
  two decimals is 251.14, whether the first price is taken as the double or as the
  decimal 1.135.
\<close>

theorem cart_total_counterexample:
  "snd (order_summary (snd (confirm py_format_2f ''cash on delivery'' ''2026-01-01 12:00''
      (add_lines py_format_2f
        [\<lparr>c_id = 11, c_name = ''Olives'', c_price = PyFloat (round53 (1135 / 1000)),
           c_restaurant = ''Pizza Place''\<rparr>,
         \<lparr>c_id = 12, c_name = ''Pizza Party Set'', c_price = PyFloat 250,
           c_restaurant = ''Pizza Place''\<rparr>]
        \<lparr>db = \<lparr>users_file = [], restaurants_file = [], orders_file = [], written = []\<rparr>,
          current_user = Some (RegularUser \<lparr>first_name = ''Al'', last_name = ''Ice'',
            birth_date = ''2000-01-01'', email = ''a@b.c'', login = ''alice'',
            password = ''abc123'', address = ''Home'', role = ''user''\<rparr>),
          cart = [], current_widget = Cart_page, cart_list = [], total_label = ''0.00'',
          order_summary = ([], ''0.00''), delivery_address = ''Home'', message_boxes = []\<rparr>))))
     = ''251.13'' \<and>
   two_decimals (num_val (PyFloat (round53 (1135 / 1000))) + num_val (PyFloat 250)) = ''251.14'' \<and>
   two_decimals (1135 / 1000 + 250) = ''251.14''"
proof -
  have t: "py_format_2f (total_loop
        [\<lparr>c_id = 11, c_name = ''Olives'', c_price = PyFloat (round53 (1135 / 1000)),
           c_restaurant = ''Pizza Place''\<rparr>,
         \<lparr>c_id = 12, c_name = ''Pizza Party Set'', c_price = PyFloat 250,
           c_restaurant = ''Pizza Place''\<rparr>] 0) = ''251.13''"
    by code_simp
  have a: "two_decimals (num_val (PyFloat (round53 (1135 / 1000))) + num_val (PyFloat 250)) = ''251.14''"
    by code_simp
  have b: "two_decimals (1135 / 1000 + 250) = ''251.14''"
    by code_simp
  have "snd (order_summary (snd (confirm py_format_2f ''cash on delivery'' ''2026-01-01 12:00''
      (add_lines py_format_2f
        [\<lparr>c_id = 11, c_name = ''Olives'', c_price = PyFloat (round53 (1135 / 1000)),
           c_restaurant = ''Pizza Place''\<rparr>,
         \<lparr>c_id = 12, c_name = ''Pizza Party Set'', c_price = PyFloat 250,
           c_restaurant = ''Pizza Place''\<rparr>]
        \<lparr>db = \<lparr>users_file = [], restaurants_file = [], orders_file = [], written = []\<rparr>,
          current_user = Some (RegularUser \<lparr>first_name = ''Al'', last_name = ''Ice'',
            birth_date = ''2000-01-01'', email = ''a@b.c'', login = ''alice'',
            password = ''abc123'', address = ''Home'', role = ''user''\<rparr>),
          cart = [], current_widget = Cart_page, cart_list = [], total_label = ''0.00'',
          order_summary = ([], ''0.00''), delivery_address = ''Home'', message_boxes = []\<rparr>))))
     = py_format_2f (total_loop
        [\<lparr>c_id = 11, c_name = ''Olives'', c_price = PyFloat (round53 (1135 / 1000)),
           c_restaurant = ''Pizza Place''\<rparr>,
         \<lparr>c_id = 12, c_name = ''Pizza Party Set'', c_price = PyFloat 250,
           c_restaurant = ''Pizza Place''\<rparr>] 0)"
    by (simp add: add_to_cart_def update_cart_def confirm_def show_order_confirmation_def
          click_confirm_def confirm_order_def show_main_def Let_def)
  with t a b show ?thesis by (simp only: simp_thms)
qed

text \<open>
  C2, amended. Start with an empty cart and a logged-in user, add the lines \<open>ls\<close> (at
  least one) and confirm. The cart then holds exactly \<open>ls\<close>; the confirmation
  succeeds; the orders file has one more order, at its end, with the user's login, the
  time stamp, the lines \<open>ls\<close> in order, the user's address, the chosen payment method
  and the status "in processing", and it has been written once; the total shown on the
  confirmation page is the floating-point sum of the prices of \<open>ls\<close>, added from 0 in
  list order, rendered with two decimals, and it is the exact sum of the prices rounded
  to two decimals (ties to even) whenever no addition rounds; the cart is empty
  afterwards, and confirming again only shows the warning that the cart is empty and
  leaves the database as it is.
\<close>

theorem cart_round_trip:
  fixes s :: "pynum app" and ls :: "pynum cart_item list" and user :: account
    and pm now :: string
  assumes empty: "cart s = []" and user: "current_user s = Some user" and n: "ls \<noteq> []"
  defines "s1 \<equiv> add_lines py_format_2f ls s"
  defines "s2 \<equiv> snd (confirm py_format_2f pm now s1)"
  defines "placed \<equiv> \<lparr>o_user = login (user_of user), o_date = now, o_items = ls,
                      o_address = address (user_of user), o_payment_method = pm,
                      o_status = In_processing\<rparr>"
  shows "cart s1 = ls \<and>
         fst (confirm py_format_2f pm now s1) = Inr () \<and>
         orders_file (db s2) = orders_file (db s) @ [placed] \<and>
         written (db s2) = written (db s) @ [''orders.json''] \<and>
         users_file (db s2) = users_file (db s) \<and>
         restaurants_file (db s2) = restaurants_file (db s) \<and>
         length (o_items placed) = length ls \<and>
         snd (order_summary s2) = py_format_2f (foldl (+) 0 (map c_price ls)) \<and>
         (exact_sums ls 0 \<longrightarrow>
            snd (order_summary s2) =
              two_decimals (sum_list (map (\<lambda>item. num_val (c_price item)) ls))) \<and>
         cart s2 = [] \<and>
         confirm py_format_2f pm' now' s2 =
           (Inr (), s2\<lparr>message_boxes := message_boxes s2 @ [Cart_is_empty]\<rparr>)"
proof -
  note g = add_lines_confirm [OF empty user n, of py_format_2f pm now pm' now',
      folded s1_def, folded s2_def, folded placed_def]
  from g have sm: "snd (order_summary s2) = py_format_2f (total_loop ls 0)" by blast
  have ex: "exact_sums ls 0 \<longrightarrow>
      snd (order_summary s2) = two_decimals (sum_list (map (\<lambda>item. num_val (c_price item)) ls))"
    using sm py_format_2f_exact [of ls] by simp
  have fl: "snd (order_summary s2) = py_format_2f (foldl (+) 0 (map c_price ls))"
    using sm by (simp add: total_loop_foldl)
  have len: "length (o_items placed) = length ls" by (simp add: placed_def)
  from g ex fl len show ?thesis by blast
qed

theorem cart_round_trip_witness:
  "exact_sums
     [\<lparr>c_id = 11, c_name = ''Pizza Margherita'', c_price = PyFloat 250, c_restaurant = ''Pizza Place''\<rparr>,
      \<lparr>c_id = 10, c_name = ''Cola'', c_price = PyFloat 99.5, c_restaurant = ''Pizza Place''\<rparr>] 0 \<and>
   snd (order_summary (snd (confirm py_format_2f ''cash on delivery'' ''2026-01-01 12:00''
      (add_lines py_format_2f
        [\<lparr>c_id = 11, c_name = ''Pizza Margherita'', c_price = PyFloat 250, c_restaurant = ''Pizza Place''\<rparr>,
         \<lparr>c_id = 10, c_name = ''Cola'', c_price = PyFloat 99.5, c_restaurant = ''Pizza Place''\<rparr>]
        \<lparr>db = \<lparr>users_file = [], restaurants_file = [], orders_file = [], written = []\<rparr>,
          current_user = Some (RegularUser \<lparr>first_name = ''Al'', last_name = ''Ice'',
            birth_date = ''2000-01-01'', email = ''a@b.c'', login = ''alice'',
            password = ''abc123'', address = ''Home'', role = ''user''\<rparr>),
          cart = [], current_widget = Cart_page, cart_list = [], total_label = ''0.00'',
          order_summary = ([], ''0.00''), delivery_address = ''Home'', message_boxes = []\<rparr>))))
     = ''349.50'' \<and>
   orders_file (db (snd (confirm py_format_2f ''cash on delivery'' ''2026-01-01 12:00''
      (add_lines py_format_2f
        [\<lparr>c_id = 11, c_name = ''Pizza Margherita'', c_price = PyFloat 250, c_restaurant = ''Pizza Place''\<rparr>,
         \<lparr>c_id = 10, c_name = ''Cola'', c_price = PyFloat 99.5, c_restaurant = ''Pizza Place''\<rparr>]
        \<lparr>db = \<lparr>users_file = [], restaurants_file = [], orders_file = [], written = []\<rparr>,
          current_user = Some (RegularUser \<lparr>first_name = ''Al'', last_name = ''Ice'',
            birth_date = ''2000-01-01'', email = ''a@b.c'', login = ''alice'',
            password = ''abc123'', address = ''Home'', role = ''user''\<rparr>),
          cart = [], current_widget = Cart_page, cart_list = [], total_label = ''0.00'',
          order_summary = ([], ''0.00''), delivery_address = ''Home'', message_boxes = []\<rparr>))))
     = [\<lparr>o_user = ''alice'', o_date = ''2026-01-01 12:00'',
         o_items =
           [\<lparr>c_id = 11, c_name = ''Pizza Margherita'', c_price = PyFloat 250, c_restaurant = ''Pizza Place''\<rparr>,
            \<lparr>c_id = 10, c_name = ''Cola'', c_price = PyFloat 99.5, c_restaurant = ''Pizza Place''\<rparr>],
         o_address = ''Home'', o_payment_method = ''cash on delivery'', o_status = In_processing\<rparr>]"
proof -
  let ?ls = "[\<lparr>c_id = 11, c_name = ''Pizza Margherita'', c_price = PyFloat 250, c_restaurant = ''Pizza Place''\<rparr>,
      \<lparr>c_id = 10, c_name = ''Cola'', c_price = PyFloat 99.5, c_restaurant = ''Pizza Place''\<rparr>]"
  let ?u = "RegularUser \<lparr>first_name = ''Al'', last_name = ''Ice'',
            birth_date = ''2000-01-01'', email = ''a@b.c'', login = ''alice'',
            password = ''abc123'', address = ''Home'', role = ''user''\<rparr>"
  let ?s = "\<lparr>db = \<lparr>users_file = [], restaurants_file = [], orders_file = [], written = []\<rparr>,
          current_user = Some ?u,
          cart = [], current_widget = Cart_page, cart_list = [], total_label = ''0.00'',
          order_summary = ([], ''0.00''), delivery_address = ''Home'', message_boxes = []\<rparr>"
  have h1: "cart ?s = []" and h2: "current_user ?s = Some ?u" and h3: "?ls \<noteq> []"
    by simp_all
  note r = cart_round_trip [OF h1 h2 h3, of "''cash on delivery''" "''2026-01-01 12:00''"
      "''cash on delivery''" "''2026-01-01 12:05''"]
  have e: "exact_sums ?ls 0" by code_simp
  have td: "two_decimals (sum_list (map (\<lambda>item. num_val (c_price item)) ?ls)) = ''349.50''"
    by code_simp
  from r e have "snd (order_summary (snd (confirm py_format_2f ''cash on delivery'' ''2026-01-01 12:00''
      (add_lines py_format_2f ?ls ?s)))) =
      two_decimals (sum_list (map (\<lambda>item. num_val (c_price item)) ?ls))"
    by blast
  then have tot: "snd (order_summary (snd (confirm py_format_2f ''cash on delivery'' ''2026-01-01 12:00''
      (add_lines py_format_2f ?ls ?s)))) = ''349.50''"
    by (simp only: td)
  from r have "orders_file (db (snd (confirm py_format_2f ''cash on delivery'' ''2026-01-01 12:00''
      (add_lines py_format_2f ?ls ?s)))) = orders_file (db ?s) @
        [\<lparr>o_user = login (user_of ?u), o_date = ''2026-01-01 12:00'', o_items = ?ls,
          o_address = address (user_of ?u), o_payment_method = ''cash on delivery'',
          o_status = In_processing\<rparr>]"
    by blast
  then have ord: "orders_file (db (snd (confirm py_format_2f ''cash on delivery'' ''2026-01-01 12:00''
      (add_lines py_format_2f ?ls ?s)))) =
        [\<lparr>o_user = ''alice'', o_date = ''2026-01-01 12:00'', o_items = ?ls,
          o_address = ''Home'', o_payment_method = ''cash on delivery'',
          o_status = In_processing\<rparr>]"
    by simp
  from e tot ord show ?thesis by blast
qed

text \<open>
  \<open>confirm_order\<close> has no check of the cart, but no run of the window reaches it with
  an empty cart: the confirmation page is entered only by \<open>show_order_confirmation\<close>
  with a line in the cart, and the cart is emptied only together with a change of page.
  So no run stores an order without lines.
\<close>

lemma login_user_same: "snd (login_user lg pw base) = base"
  by (simp add: login_user_def Let_def split: sum.splits option.splits)

lemma handle_login_keeps:
  assumes "lines_inv s"
  shows "lines_inv (snd (handle_login lg pw s))"
proof -
  obtain r where r: "login_user lg pw (db s) = (r, db s)"
    using login_user_same [of lg pw "db s"] by (cases "login_user lg pw (db s)") simp
  show ?thesis using assms
    by (auto simp: handle_login_def r lines_inv_def show_admin_page_def show_main_def Let_def
             split: sum.splits option.splits)
qed

lemma handle_keeps:
  assumes "lines_inv s"
  shows "lines_inv (snd (handle f c s))"
proof (cases c)
  case (Login_click lg pw)
  then show ?thesis using handle_login_keeps [OF assms] by simp
next
  case (Confirm_click pm now)
  then show ?thesis using assms
    by (auto simp: lines_inv_def click_confirm_def confirm_order_def show_main_def
          save_orders_def load_orders_def Let_def split: option.splits)
qed (use assms in \<open>auto simp: lines_inv_def add_to_cart_def update_cart_def show_cart_def
       show_main_def show_order_confirmation_def logout_def Let_def split: option.splits\<close>)

lemma run_keeps:
  "lines_inv s \<Longrightarrow> lines_inv (snd (run f cs s))"
proof (induction cs arbitrary: s)
  case Nil
  then show ?case by simp
next
  case (Cons c cs)
  from handle_keeps [OF Cons.prems, of f c] Cons.IH [of "snd (handle f c s)"]
  show ?case by (cases "handle f c s") (auto split: sum.splits)
qed


end
